theory Spec2Isabelle
  imports Complex_Main
begin

section \<open>Data model\<close>

text \<open>
  The layout modes of \<^verbatim>\<open>types/index.ts\<close>, and the parts of a React Flow node and edge
  that the code under study reads or writes. A JavaScript number is represented by its
  value, a real number. The language adds two numbers in IEEE double arithmetic, that is
  with rounding: wherever the code adds to a coordinate, the sum is taken by a parameter
  \<open>fadd\<close> of the function, and nothing is assumed about it.
\<close>

datatype LayoutMode = mindmap | orgchart | logic

record XY =
  x_of :: real
  y_of :: real

record NodeData =
  label :: string
  isPortal :: bool
  color :: string
  subFileId :: "string option"

record FlowNode =
  nid :: string
  ntype :: string
  position :: XY
  ndata :: NodeData
  selected :: bool

record FlowEdge =
  eid :: string
  source :: string
  target :: string
  sourceHandle :: "string option"
  targetHandle :: "string option"

text \<open>
  The store never inspects the node and edge collections of a file: it only stores,
  copies and returns them. The static types \<^verbatim>\<open>Node[]\<close> and \<^verbatim>\<open>Edge[]\<close> are erased at run
  time, and the import path writes unvalidated JSON values into these fields, so the
  two collections are type parameters of the store.
\<close>

record ('n, 'e) Snapshot =
  snap_nodes :: 'n
  snap_edges :: 'e

record ('n, 'e) MindMapFile =
  fid :: string
  fname :: string
  pinned :: bool
  parentFileId :: "string option"
  parentNodeId :: "string option"
  nodes :: 'n
  edges :: 'e
  createdAt :: nat
  updatedAt :: nat

text \<open>
  The fields of the store that the file, canvas and history operations touch. The
  remaining fields (authentication, theme, layout mode, sidebar) are neither read nor
  written by any operation below.
\<close>

record ('n, 'e) AppState =
  files :: "('n, 'e) MindMapFile list"
  activeFileId :: "string option"
  breadcrumb :: "string list"
  undoStack :: "('n, 'e) Snapshot list"
  redoStack :: "('n, 'e) Snapshot list"

definition MAX_UNDO :: nat where
  "MAX_UNDO = 50"

definition initialState :: "('n, 'e) AppState" where
  "initialState = \<lparr>files = [], activeFileId = None, breadcrumb = [], undoStack = [], redoStack = []\<rparr>"

section \<open>The store (useAppStore)\<close>

text \<open>
  \<^verbatim>\<open>uid()\<close> and \<^verbatim>\<open>Date.now()\<close> are inputs of the environment: every operation that calls
  them takes the fresh identifier and the clock readings as arguments.
\<close>

definition defaultFile ::
  "string \<Rightarrow> nat \<Rightarrow> nat \<Rightarrow> string \<Rightarrow> string option \<Rightarrow> string option
    \<Rightarrow> (FlowNode list, FlowEdge list) MindMapFile" where
  "defaultFile newId t1 t2 nm pf pn =
     \<lparr>fid = newId, fname = nm, pinned = False, parentFileId = pf, parentNodeId = pn,
      nodes = [\<lparr>nid = ''root'', ntype = ''editable'', position = \<lparr>x_of = 0, y_of = 0\<rparr>,
                ndata = \<lparr>label = ''Central Idea'', isPortal = False, color = '''', subFileId = None\<rparr>,
                selected = False\<rparr>],
      edges = [], createdAt = t1, updatedAt = t2\<rparr>"

definition createFile ::
  "string \<Rightarrow> nat \<Rightarrow> nat \<Rightarrow> string option \<Rightarrow> string option \<Rightarrow> string option
    \<Rightarrow> (FlowNode list, FlowEdge list) AppState
    \<Rightarrow> (FlowNode list, FlowEdge list) AppState \<times> string" where
  "createFile newId t1 t2 nm pf pn s =
     (let f = defaultFile newId t1 t2 (case nm of None \<Rightarrow> ''Untitled Map'' | Some n \<Rightarrow> n) pf pn
      in (s\<lparr>files := files s @ [f], activeFileId := Some (fid f)\<rparr>, fid f))"

definition deleteFile :: "string \<Rightarrow> ('n, 'e) AppState \<Rightarrow> ('n, 'e) AppState" where
  "deleteFile i s =
     (let remaining = filter (\<lambda>f. fid f \<noteq> i \<and> parentFileId f \<noteq> Some i) (files s)
      in s\<lparr>files := remaining,
           activeFileId :=
             (if activeFileId s = Some i
              then (case remaining of [] \<Rightarrow> None | f # _ \<Rightarrow> Some (fid f))
              else activeFileId s)\<rparr>)"

definition setNodes :: "nat \<Rightarrow> 'n \<Rightarrow> ('n, 'e) AppState \<Rightarrow> ('n, 'e) AppState" where
  "setNodes now ns s =
     s\<lparr>files := map (\<lambda>f. if Some (fid f) = activeFileId s
                            then f\<lparr>nodes := ns, updatedAt := now\<rparr> else f) (files s)\<rparr>"

definition setEdges :: "nat \<Rightarrow> 'e \<Rightarrow> ('n, 'e) AppState \<Rightarrow> ('n, 'e) AppState" where
  "setEdges now es s =
     s\<lparr>files := map (\<lambda>f. if Some (fid f) = activeFileId s
                            then f\<lparr>edges := es, updatedAt := now\<rparr> else f) (files s)\<rparr>"

definition activeFile :: "('n, 'e) AppState \<Rightarrow> ('n, 'e) MindMapFile option" where
  "activeFile s = find (\<lambda>f. Some (fid f) = activeFileId s) (files s)"

text \<open>
  \<^verbatim>\<open>xs.slice(-MAX_UNDO)\<close> keeps the last \<open>MAX_UNDO\<close> entries (all of them when there are
  fewer); \<^verbatim>\<open>xs.slice(0, -1)\<close> drops the last entry.
\<close>

definition pushUndo :: "('n, 'e) Snapshot \<Rightarrow> ('n, 'e) AppState \<Rightarrow> ('n, 'e) AppState" where
  "pushUndo snapshot s =
     s\<lparr>undoStack := drop (length (undoStack s) - MAX_UNDO) (undoStack s) @ [snapshot],
       redoStack := []\<rparr>"

definition undo :: "nat \<Rightarrow> nat \<Rightarrow> ('n, 'e) AppState \<Rightarrow> ('n, 'e) AppState" where
  "undo t1 t2 s =
     (if length (undoStack s) = 0 then s
      else case activeFile s of
        None \<Rightarrow> s
      | Some file \<Rightarrow>
          let current = \<lparr>snap_nodes = nodes file, snap_edges = edges file\<rparr>;
              prev = last (undoStack s);
              s' = s\<lparr>undoStack := butlast (undoStack s), redoStack := redoStack s @ [current]\<rparr>
          in setEdges t2 (snap_edges prev) (setNodes t1 (snap_nodes prev) s'))"

definition redo :: "nat \<Rightarrow> nat \<Rightarrow> ('n, 'e) AppState \<Rightarrow> ('n, 'e) AppState" where
  "redo t1 t2 s =
     (if length (redoStack s) = 0 then s
      else case activeFile s of
        None \<Rightarrow> s
      | Some file \<Rightarrow>
          let current = \<lparr>snap_nodes = nodes file, snap_edges = edges file\<rparr>;
              next = last (redoStack s);
              s' = s\<lparr>redoStack := butlast (redoStack s), undoStack := undoStack s @ [current]\<rparr>
          in setEdges t2 (snap_edges next) (setNodes t1 (snap_nodes next) s'))"

text \<open>
  The (nodes, edges) pair of the active document, when there is one.
\<close>

definition activePair :: "('n, 'e) AppState \<Rightarrow> ('n \<times> 'e) option" where
  "activePair s = map_option (\<lambda>f. (nodes f, edges f)) (activeFile s)"

section \<open>Collision resolution (Canvas.tsx, resolveCollisions)\<close>

text \<open>
  The three constants are small integers; their sums, halves and products by \<open>1\<close> and
  \<open>- 1\<close> (\<open>240 / 2\<close>, \<open>240 + 40\<close>, \<open>280 * - 1\<close> and the like) are exact in double
  arithmetic. Every sum that involves a coordinate goes through \<open>fadd\<close>.
\<close>

definition APPROX_NODE_W :: real where
  "APPROX_NODE_W = 240"

definition APPROX_NODE_H :: real where
  "APPROX_NODE_H = 120"

definition COLLISION_PAD :: real where
  "COLLISION_PAD = 40"

record Rect =
  x1 :: real
  y1 :: real
  x2 :: real
  y2 :: real

definition rect :: "(real \<Rightarrow> real \<Rightarrow> real) \<Rightarrow> FlowNode \<Rightarrow> Rect" where
  "rect fadd n = \<lparr>x1 = x_of (position n), y1 = y_of (position n),
                  x2 = fadd (x_of (position n)) APPROX_NODE_W,
                  y2 = fadd (y_of (position n)) APPROX_NODE_H\<rparr>"

definition overlaps :: "Rect \<Rightarrow> Rect \<Rightarrow> bool" where
  "overlaps a b \<longleftrightarrow> x1 a < x2 b \<and> x2 a > x1 b \<and> y1 a < y2 b \<and> y2 a > y1 b"

text \<open>
  The test \<^verbatim>\<open>lockedId && b.id === lockedId\<close>: an absent locked id and the empty string
  are both falsy, so neither locks any node.
\<close>

definition isLocked :: "string option \<Rightarrow> FlowNode \<Rightarrow> bool" where
  "isLocked lockedId b = (case lockedId of None \<Rightarrow> False | Some l \<Rightarrow> l \<noteq> [] \<and> nid b = l)"

text \<open>
  The body of the two inner loops at the ordered pair \<open>(i, j)\<close>. The array is updated in
  place, so the state is the current node list with the \<^verbatim>\<open>moved\<close> flag; both indices
  are below the length of the list whenever the loops call it.
\<close>

definition pairStep ::
  "(real \<Rightarrow> real \<Rightarrow> real) \<Rightarrow> LayoutMode \<Rightarrow> string option \<Rightarrow> nat \<Rightarrow> nat
    \<Rightarrow> FlowNode list \<times> bool \<Rightarrow> FlowNode list \<times> bool" where
  "pairStep fadd mode lockedId i j st =
     (case st of (ns, moved) \<Rightarrow>
        if i = j then (ns, moved)
        else
          let a = ns ! i; b = ns ! j in
          if isLocked lockedId b then (ns, moved)
          else if \<not> overlaps (rect fadd a) (rect fadd b) then (ns, moved)
          else
            let ax = fadd (x_of (position a)) (APPROX_NODE_W / 2);
                ay = fadd (y_of (position a)) (APPROX_NODE_H / 2);
                bx = fadd (x_of (position b)) (APPROX_NODE_W / 2);
                by = fadd (y_of (position b)) (APPROX_NODE_H / 2);
                pushRight = (bx \<ge> ax);
                pushDown = (by \<ge> ay);
                dx = (APPROX_NODE_W + COLLISION_PAD) * (if pushRight then 1 else - 1);
                dy = (APPROX_NODE_H + COLLISION_PAD) * (if pushDown then 1 else - 1);
                b' = (case mode of
                        orgchart \<Rightarrow> b\<lparr>position := (position b)\<lparr>x_of := fadd (x_of (position b)) dx\<rparr>\<rparr>
                      | logic \<Rightarrow> b\<lparr>position := (position b)\<lparr>y_of := fadd (y_of (position b)) dy\<rparr>\<rparr>
                      | mindmap \<Rightarrow> b\<lparr>position := (position b)\<lparr>y_of := fadd (y_of (position b)) dy\<rparr>\<rparr>)
            in (ns[j := b'], True))"

text \<open>One pass: every ordered pair of indices, \<open>i\<close> outermost, starting with \<^verbatim>\<open>moved = false\<close>.\<close>

definition onePass ::
  "(real \<Rightarrow> real \<Rightarrow> real) \<Rightarrow> LayoutMode \<Rightarrow> string option \<Rightarrow> FlowNode list
    \<Rightarrow> FlowNode list \<times> bool" where
  "onePass fadd mode lockedId ns =
     fold (\<lambda>i. fold (pairStep fadd mode lockedId i) [0..<length ns]) [0..<length ns] (ns, False)"

text \<open>
  The outer loop \<^verbatim>\<open>for (iter = 0; iter < 20; iter++)\<close> with its \<^verbatim>\<open>break\<close>. Next to the
  nodes it returns the number of passes it has executed, which the source does not
  return; the count is there to state the bound on the passes.
\<close>

function passLoop ::
  "(real \<Rightarrow> real \<Rightarrow> real) \<Rightarrow> LayoutMode \<Rightarrow> string option \<Rightarrow> nat \<Rightarrow> FlowNode list
    \<Rightarrow> FlowNode list \<times> nat" where
  "passLoop fadd mode lockedId iter ns =
     (if iter < 20 then
        (case onePass fadd mode lockedId ns of
           (ns', moved) \<Rightarrow>
             if \<not> moved then (ns', Suc iter) else passLoop fadd mode lockedId (Suc iter) ns')
      else (ns, iter))"
  by pat_completeness auto
termination
  by (relation "measure (\<lambda>(fadd, mode, lockedId, iter, ns). 20 - iter)") auto

declare passLoop.simps [simp del]

definition copyNode :: "FlowNode \<Rightarrow> FlowNode" where
  "copyNode n = n\<lparr>position := \<lparr>x_of = x_of (position n), y_of = y_of (position n)\<rparr>\<rparr>"

definition resolveCollisions ::
  "(real \<Rightarrow> real \<Rightarrow> real) \<Rightarrow> FlowNode list \<Rightarrow> LayoutMode \<Rightarrow> string option \<Rightarrow> FlowNode list" where
  "resolveCollisions fadd inputNodes mode lockedId =
     fst (passLoop fadd mode lockedId 0 (map copyNode inputNodes))"

definition passesRun ::
  "(real \<Rightarrow> real \<Rightarrow> real) \<Rightarrow> FlowNode list \<Rightarrow> LayoutMode \<Rightarrow> string option \<Rightarrow> nat" where
  "passesRun fadd inputNodes mode lockedId =
     snd (passLoop fadd mode lockedId 0 (map copyNode inputNodes))"

text \<open>The node list after \<open>k\<close> full passes, whether or not the loop runs that many.\<close>

definition afterPasses ::
  "(real \<Rightarrow> real \<Rightarrow> real) \<Rightarrow> LayoutMode \<Rightarrow> string option \<Rightarrow> nat \<Rightarrow> FlowNode list
    \<Rightarrow> FlowNode list" where
  "afterPasses fadd mode lockedId k ns = ((\<lambda>m. fst (onePass fadd mode lockedId m)) ^^ k) ns"

section \<open>Canvas handlers (Canvas.tsx)\<close>

text \<open>
  The canvas keeps its own copy of the active document's nodes and edges (React state)
  next to the store. A handler runs to completion on this pair and the store; the
  effects that later copy between the two are not part of a handler.
\<close>

record Canvas =
  c_nodes :: "FlowNode list"
  c_edges :: "FlowEdge list"
  store :: "(FlowNode list, FlowEdge list) AppState"

definition snapshot :: "Canvas \<Rightarrow> Canvas" where
  "snapshot c = c\<lparr>store := pushUndo \<lparr>snap_nodes = c_nodes c, snap_edges = c_edges c\<rparr> (store c)\<rparr>"

text \<open>
  \<^verbatim>\<open>handleNodeAction\<close>, for the two cases of its switch studied here: \<^verbatim>\<open>'delete'\<close> and
  \<^verbatim>\<open>'togglePortal'\<close>. The handler returns at once when the node id is not on the canvas,
  and takes the snapshot before the switch.
\<close>

datatype NodeAction = Delete | TogglePortal

definition handleNodeAction ::
  "string \<Rightarrow> nat \<Rightarrow> nat \<Rightarrow> string \<Rightarrow> NodeAction \<Rightarrow> Canvas \<Rightarrow> Canvas" where
  "handleNodeAction newId t1 t2 nodeId action c =
     (case find (\<lambda>n. nid n = nodeId) (c_nodes c) of
        None \<Rightarrow> c
      | Some node \<Rightarrow>
          let c1 = snapshot c in
          (case action of
             Delete \<Rightarrow>
               c1\<lparr>c_nodes := filter (\<lambda>n. nid n \<noteq> nodeId) (c_nodes c1),
                  c_edges := filter (\<lambda>ed. source ed \<noteq> nodeId \<and> target ed \<noteq> nodeId) (c_edges c1)\<rparr>
           | TogglePortal \<Rightarrow>
               if \<not> isPortal (ndata node) then
                 (case createFile newId t1 t2 (Some (''Sub: '' @ label (ndata node)))
                         (activeFileId (store c1)) (Some nodeId) (store c1) of
                    (st, newSubFileId) \<Rightarrow>
                      c1\<lparr>store := st,
                         c_nodes := map (\<lambda>n. if nid n = nodeId
                                              then n\<lparr>ndata := (ndata n)\<lparr>isPortal := True,
                                                                        subFileId := Some newSubFileId\<rparr>\<rparr>
                                              else n) (c_nodes c1)\<rparr>)
               else
                 c1\<lparr>c_nodes := map (\<lambda>n. if nid n = nodeId
                                         then n\<lparr>ndata := (ndata n)\<lparr>isPortal := False\<rparr>\<rparr>
                                         else n) (c_nodes c1)\<rparr>))"

text \<open>
  The Delete / Backspace branch of \<^verbatim>\<open>onKeyDown\<close>: it acts on the first selected node and
  does nothing while the key event comes from a text input.
\<close>

definition onKeyDownDelete :: "bool \<Rightarrow> Canvas \<Rightarrow> Canvas" where
  "onKeyDownDelete targetIsTextInput c =
     (case find selected (c_nodes c) of
        None \<Rightarrow> c
      | Some sel \<Rightarrow>
          if targetIsTextInput then c
          else
            let c1 = snapshot c in
            c1\<lparr>c_nodes := filter (\<lambda>n. nid n \<noteq> nid sel) (c_nodes c1),
               c_edges := filter (\<lambda>ed. source ed \<noteq> nid sel \<and> target ed \<noteq> nid sel) (c_edges c1)\<rparr>)"

text \<open>
  The callback of the auto-save timer. Every change of the canvas's nodes or edges
  re-arms the timer (unless no file is active); when it fires, 300 ms after the last
  change, it copies the canvas's nodes and edges into the store. Until then the store
  holds the active document as it was at the previous save.
\<close>

definition autoSave :: "nat \<Rightarrow> nat \<Rightarrow> Canvas \<Rightarrow> Canvas" where
  "autoSave t1 t2 c =
     (case activeFileId (store c) of
        None \<Rightarrow> c
      | Some i \<Rightarrow>
          if i = [] then c
          else c\<lparr>store := setEdges t2 (c_edges c) (setNodes t1 (c_nodes c) (store c))\<rparr>)"

text \<open>The number of documents owned by a given portal node.\<close>

definition portalCount :: "string \<Rightarrow> ('n, 'e) AppState \<Rightarrow> nat" where
  "portalCount n s = length (filter (\<lambda>f. parentNodeId f = Some n) (files s))"

section \<open>JSON import (exportUtils.ts, Toolbar)\<close>

text \<open>
  \<^verbatim>\<open>JSON.parse\<close> belongs to the language, not to the repository: the file's text enters
  through the outcome of parsing it, \<open>None\<close> when \<^verbatim>\<open>JSON.parse\<close> throws a SyntaxError.
\<close>

datatype Json =
  JNull
| JBool bool
| JNum real
| JStr string
| JArr "Json list"
| JObj "(string \<times> Json) list"

datatype Thrown = SyntaxError | TypeError

datatype ImportError = Error string

text \<open>
  Reading the property \<^verbatim>\<open>nodes\<close> or \<^verbatim>\<open>edges\<close> of a parsed value: \<^verbatim>\<open>null\<close> has no
  properties and the read throws; an object yields the member or \<^verbatim>\<open>undefined\<close>
  (\<open>None\<close>); numbers, strings, booleans and arrays have no property of either name.
\<close>

fun getProp :: "Json \<Rightarrow> string \<Rightarrow> Thrown + Json option" where
  "getProp JNull k = Inl TypeError"
| "getProp (JObj kvs) k = Inr (map_of kvs k)"
| "getProp _ k = Inr None"

text \<open>\<^verbatim>\<open>v ?? []\<close>: the empty array replaces \<^verbatim>\<open>undefined\<close> and \<^verbatim>\<open>null\<close>.\<close>

fun orEmpty :: "Json option \<Rightarrow> Json" where
  "orEmpty None = JArr []"
| "orEmpty (Some JNull) = JArr []"
| "orEmpty (Some v) = v"

definition importBody :: "Json option \<Rightarrow> Thrown + (Json \<times> Json)" where
  "importBody parsed =
     (case parsed of
        None \<Rightarrow> Inl SyntaxError
      | Some json \<Rightarrow>
          (case getProp json ''nodes'' of
             Inl e \<Rightarrow> Inl e
           | Inr n \<Rightarrow>
               (case getProp json ''edges'' of
                  Inl e \<Rightarrow> Inl e
                | Inr es \<Rightarrow> Inr (orEmpty n, orEmpty es))))"

text \<open>The \<^verbatim>\<open>catch\<close> turns whatever the body throws into the rejection \<^verbatim>\<open>Error('Invalid JSON')\<close>.\<close>

definition importJSON :: "Json option \<Rightarrow> ImportError + (Json \<times> Json)" where
  "importJSON parsed =
     (case importBody parsed of
        Inl _ \<Rightarrow> Inl (Error ''Invalid JSON'')
      | Inr r \<Rightarrow> Inr r)"

text \<open>
  The toolbar's \<^verbatim>\<open>handleImport\<close>: no file chosen, nothing happens; a rejected import
  shows an alert (the second component) and writes nothing.
\<close>

definition handleImport ::
  "Json option option \<Rightarrow> nat \<Rightarrow> nat \<Rightarrow> (Json, Json) AppState
    \<Rightarrow> (Json, Json) AppState \<times> string option" where
  "handleImport file t1 t2 s =
     (case file of
        None \<Rightarrow> (s, None)
      | Some parsed \<Rightarrow>
          (case importJSON parsed of
             Inr (ns, es) \<Rightarrow> (setEdges t2 es (setNodes t1 ns s), None)
           | Inl _ \<Rightarrow> (s, Some ''Failed to import: invalid JSON file'')))"

section \<open>Sample inputs\<close>

text \<open>Concrete documents and canvases on which the results below are instantiated.\<close>

definition nodeAt :: "string \<Rightarrow> real \<Rightarrow> real \<Rightarrow> FlowNode" where
  "nodeAt i px py =
     \<lparr>nid = i, ntype = ''editable'', position = \<lparr>x_of = px, y_of = py\<rparr>,
      ndata = \<lparr>label = ''Child'', isPortal = False, color = '''', subFileId = None\<rparr>,
      selected = False\<rparr>"

definition twoStacked :: "FlowNode list" where
  "twoStacked = [nodeAt ''a'' 0 0, nodeAt ''b'' 0 0]"

text \<open>The snapshot taken when the root node is dragged away from \<open>(i, 0)\<close>.\<close>

definition dragSnapshot :: "nat \<Rightarrow> (FlowNode list, FlowEdge list) Snapshot" where
  "dragSnapshot i =
     \<lparr>snap_nodes = [\<lparr>nid = ''root'', ntype = ''editable'', position = \<lparr>x_of = real i, y_of = 0\<rparr>,
                ndata = \<lparr>label = ''Central Idea'', isPortal = False, color = '''', subFileId = None\<rparr>,
                selected = True\<rparr>],
      snap_edges = []\<rparr>"

text \<open>The store after the first file has been created, and after a sub-map of its root node.\<close>

definition oneFile :: "(FlowNode list, FlowEdge list) AppState" where
  "oneFile = fst (createFile ''a'' 1 1 (Some ''My First Mind Map'') None None initialState)"

definition twoFiles :: "(FlowNode list, FlowEdge list) AppState" where
  "twoFiles = fst (createFile ''b'' 2 2 (Some ''Sub: Central Idea'') (Some ''a'') (Some ''root'') oneFile)"

text \<open>
  The canvas showing the first file, and a canvas with a root and three children, the
  second of them selected.
\<close>

definition rootCanvas :: Canvas where
  "rootCanvas = \<lparr>c_nodes = nodes (defaultFile ''a'' 1 1 ''My First Mind Map'' None None),
                  c_edges = [], store = oneFile\<rparr>"

definition edgeFromTo :: "string \<Rightarrow> string \<Rightarrow> FlowEdge" where
  "edgeFromTo a b = \<lparr>eid = ''e-'' @ a @ ''-'' @ b, source = a, target = b,
                      sourceHandle = None, targetHandle = None\<rparr>"

definition threeChildren :: Canvas where
  "threeChildren =
     \<lparr>c_nodes = [nodeAt ''root'' 0 0, nodeAt ''c1'' 0 (- 220), (nodeAt ''c2'' 190 (- 110))\<lparr>selected := True\<rparr>, nodeAt ''c3'' 190 110],
      c_edges = [edgeFromTo ''root'' ''c1'', edgeFromTo ''root'' ''c2'', edgeFromTo ''root'' ''c3''],
      store = oneFile\<rparr>"

text \<open>The same canvas once the auto-save has copied it into the store.\<close>

definition threeChildrenSaved :: Canvas where
  "threeChildrenSaved = autoSave 5 5 threeChildren"

section \<open>Properties of the collision resolver's frame\<close>

text \<open>A node with its position blanked: what is left are all the other fields.\<close>

definition stripPosition :: "FlowNode \<Rightarrow> FlowNode" where
  "stripPosition n = n\<lparr>position := \<lparr>x_of = 0, y_of = 0\<rparr>\<rparr>"

text \<open>
  \<open>framed l ms ns\<close>: \<open>ms\<close> has the nodes of \<open>ns\<close> in the same order, equal in every field
  but the position, and equal in the position too where \<open>l\<close> locks the node.
\<close>

definition framed :: "string option \<Rightarrow> FlowNode list \<Rightarrow> FlowNode list \<Rightarrow> bool" where
  "framed l ms ns \<longleftrightarrow>
     length ms = length ns \<and>
     (\<forall>i<length ns. stripPosition (ms ! i) = stripPosition (ns ! i)
        \<and> (isLocked l (ns ! i) \<longrightarrow> position (ms ! i) = position (ns ! i)))"

section \<open>History: undo and redo\<close>

text \<open>
  C1. Undo/redo inverse law: after an operation that pushes a snapshot of the
  pre-operation (nodes, edges) pair and then mutates, \<open>undo\<close> at once restores the
  pre-operation pair, and \<open>redo\<close> right after that undo restores the post-operation pair.
  The canvas does otherwise on the redo. A handler pushes the snapshot into the store but
  mutates only the canvas's own nodes and edges; the store receives them when the
  auto-save fires. \<open>undo\<close> takes the state to redo from the store, so at once after
  the handler it pushes the pre-operation pair onto the redo stack. On the saved canvas
  with three children, deleting the second child and then undo, redo leaves the active
  document at the pre-operation pair (four nodes, three edges), not at the post-operation
  pair (three nodes, two edges). Had the auto-save fired before the undo, the redo would
  restore the post-operation pair.
\<close>

theorem redo_after_immediate_undo_is_stale:
  "activePair (store threeChildrenSaved) = Some (c_nodes threeChildren, c_edges threeChildren)
   \<and> c_nodes (handleNodeAction ''u'' 9 9 ''c2'' Delete threeChildrenSaved)
       = [nodeAt ''root'' 0 0, nodeAt ''c1'' 0 (- 220), nodeAt ''c3'' 190 110]
   \<and> c_edges (handleNodeAction ''u'' 9 9 ''c2'' Delete threeChildrenSaved)
       = [edgeFromTo ''root'' ''c1'', edgeFromTo ''root'' ''c3'']
   \<and> c_nodes (handleNodeAction ''u'' 9 9 ''c2'' Delete threeChildrenSaved) \<noteq> c_nodes threeChildren
   \<and> c_edges (handleNodeAction ''u'' 9 9 ''c2'' Delete threeChildrenSaved) \<noteq> c_edges threeChildren
   \<and> activePair (undo 10 11 (store (handleNodeAction ''u'' 9 9 ''c2'' Delete threeChildrenSaved)))
       = Some (c_nodes threeChildren, c_edges threeChildren)
   \<and> activePair (redo 12 13 (undo 10 11
         (store (handleNodeAction ''u'' 9 9 ''c2'' Delete threeChildrenSaved))))
       = Some (c_nodes threeChildren, c_edges threeChildren)
   \<and> activePair (redo 12 13 (undo 10 11
         (store (autoSave 9 9 (handleNodeAction ''u'' 9 9 ''c2'' Delete threeChildrenSaved)))))
       = Some ([nodeAt ''root'' 0 0, nodeAt ''c1'' 0 (- 220), nodeAt ''c3'' 190 110],
               [edgeFromTo ''root'' ''c1'', edgeFromTo ''root'' ''c3''])"
  by (simp add: threeChildrenSaved_def threeChildren_def autoSave_def oneFile_def initialState_def
      createFile_def defaultFile_def handleNodeAction_def snapshot_def pushUndo_def MAX_UNDO_def
      undo_def redo_def activePair_def activeFile_def setNodes_def setEdges_def Let_def
      nodeAt_def edgeFromTo_def)

lemma pushUndo_length:
  "length (undoStack (pushUndo sn s)) = Suc (min MAX_UNDO (length (undoStack s)))"
  by (simp add: pushUndo_def)

lemma pushUndo_fold_below_cap:
  "n \<le> Suc MAX_UNDO \<Longrightarrow> undoStack (fold pushUndo (map f [0..<n]) initialState) = map f [0..<n]"
proof (induction n)
  case 0
  then show ?case by (simp add: initialState_def)
next
  case (Suc n)
  then show ?case by (simp add: pushUndo_def)
qed

text \<open>
  C2. The undo and redo stacks hold at most 50 snapshots each, and a \<open>pushUndo\<close> at the
  cap evicts the oldest entry. The store does otherwise: \<open>pushUndo\<close> keeps the last 50
  entries and then appends, so after 51 pushes from the initial store (the root node
  dragged 51 times) the undo stack holds 51 snapshots and the oldest is still the first.
\<close>

theorem pushUndo_cap_exceeded:
  "length (undoStack (fold pushUndo (map dragSnapshot [0..<51]) initialState)) = 51
   \<and> hd (undoStack (fold pushUndo (map dragSnapshot [0..<51]) initialState)) = dragSnapshot 0"
proof -
  have "undoStack (fold pushUndo (map dragSnapshot [0..<51]) initialState) = map dragSnapshot [0..<51]"
    by (rule pushUndo_fold_below_cap) (simp add: MAX_UNDO_def)
  then show ?thesis by (simp add: hd_map upt_rec[of 0 51])
qed

section \<open>Deleting a file\<close>

lemma deleteFile_files:
  "files (deleteFile i s) = filter (\<lambda>f. fid f \<noteq> i \<and> parentFileId f \<noteq> Some i) (files s)"
  by (simp add: deleteFile_def Let_def)

text \<open>
  C4. \<open>deleteFile i\<close> removes the document \<open>i\<close> and its direct children, and when the
  active document is among the removed ones the active id becomes the first remaining
  document's id, or none. The removal is as stated (\<open>deleteFile_files\<close>); the active id
  is reset only when it equals \<open>i\<close> itself. With the sub-map \<open>b\<close> of file \<open>a\<close> active,
  deleting \<open>a\<close> removes both files and leaves the active id at the removed \<open>b\<close>.
\<close>

theorem deleteFile_active_child_dangles:
  "activeFileId twoFiles = Some ''b''
   \<and> map fid (files twoFiles) = [''a'', ''b'']
   \<and> map parentFileId (files twoFiles) = [None, Some ''a'']
   \<and> files (deleteFile ''a'' twoFiles) = []
   \<and> activeFileId (deleteFile ''a'' twoFiles) = Some ''b''"
  by (simp add: twoFiles_def oneFile_def createFile_def defaultFile_def initialState_def deleteFile_def)

section \<open>Collision resolution\<close>

lemma copyNode_id [simp]: "copyNode n = n"
  by (simp add: copyNode_def)

lemma map_copyNode [simp]: "map copyNode ns = ns"
  by (induction ns) simp_all

subsection \<open>The passes\<close>

lemma afterPasses_0 [simp]: "afterPasses fadd mode l 0 ns = ns"
  by (simp add: afterPasses_def)

lemma afterPasses_Suc:
  "afterPasses fadd mode l (Suc k) ns = afterPasses fadd mode l k (fst (onePass fadd mode l ns))"
  unfolding afterPasses_def by (simp only: funpow_Suc_right o_apply)

text \<open>
  The loop entered at iteration \<open>iter\<close>: the pass count stays within 20, the result is
  the node list after the passes run from here, the loop has stopped by the first pass
  that moved nothing, and when it stops before 20 its last pass moved nothing.
\<close>

lemma passLoop_spec:
  "iter \<le> 20 \<Longrightarrow>
   iter \<le> snd (passLoop fadd mode l iter ns) \<and> snd (passLoop fadd mode l iter ns) \<le> 20
   \<and> (iter < 20 \<longrightarrow> iter < snd (passLoop fadd mode l iter ns))
   \<and> fst (passLoop fadd mode l iter ns) = afterPasses fadd mode l (snd (passLoop fadd mode l iter ns) - iter) ns
   \<and> (\<forall>k. iter + k < 20 \<and> \<not> snd (onePass fadd mode l (afterPasses fadd mode l k ns))
          \<longrightarrow> snd (passLoop fadd mode l iter ns) \<le> Suc (iter + k))
   \<and> (snd (passLoop fadd mode l iter ns) < 20 \<longrightarrow>
          \<not> snd (onePass fadd mode l (afterPasses fadd mode l (snd (passLoop fadd mode l iter ns) - Suc iter) ns)))"
proof (induction fadd mode l iter ns rule: passLoop.induct)
  case (1 fadd mode l iter ns)
  show ?case
  proof (cases "iter < 20")
    case False
    then have pl: "passLoop fadd mode l iter ns = (ns, iter)"
      by (subst passLoop.simps) simp
    show ?thesis using False "1.prems" unfolding pl by simp
  next
    case lt: True
    obtain ns' moved where op: "onePass fadd mode l ns = (ns', moved)" by (cases "onePass fadd mode l ns")
    show ?thesis
    proof (cases moved)
      case False
      then have pl: "passLoop fadd mode l iter ns = (ns', Suc iter)"
        using lt op by (subst passLoop.simps) simp
      show ?thesis using lt op False
        by (simp add: pl afterPasses_Suc)
    next
      case True
      then have pl: "passLoop fadd mode l iter ns = passLoop fadd mode l (Suc iter) ns'"
        using lt op by (subst passLoop.simps) simp
      define p where "p = snd (passLoop fadd mode l (Suc iter) ns')"
      have IH: "Suc iter \<le> p \<and> p \<le> 20
        \<and> (Suc iter < 20 \<longrightarrow> Suc iter < p)
        \<and> fst (passLoop fadd mode l (Suc iter) ns') = afterPasses fadd mode l (p - Suc iter) ns'
        \<and> (\<forall>k. Suc iter + k < 20 \<and> \<not> snd (onePass fadd mode l (afterPasses fadd mode l k ns'))
               \<longrightarrow> p \<le> Suc (Suc iter + k))
        \<and> (p < 20 \<longrightarrow> \<not> snd (onePass fadd mode l (afterPasses fadd mode l (p - Suc (Suc iter)) ns')))"
        unfolding p_def using "1.IH"[OF lt op[symmetric]] True lt by simp
      have ns': "ns' = fst (onePass fadd mode l ns)" using op by simp
      have a: "iter \<le> p" "p \<le> 20" "iter < p" using IH by auto
      have b: "fst (passLoop fadd mode l (Suc iter) ns') = afterPasses fadd mode l (p - iter) ns"
      proof -
        have "p - iter = Suc (p - Suc iter)" using a by simp
        then show ?thesis using IH by (simp add: afterPasses_Suc ns')
      qed
      have c: "\<forall>k. iter + k < 20 \<and> \<not> snd (onePass fadd mode l (afterPasses fadd mode l k ns)) \<longrightarrow> p \<le> Suc (iter + k)"
      proof (intro allI impI)
        fix k assume h: "iter + k < 20 \<and> \<not> snd (onePass fadd mode l (afterPasses fadd mode l k ns))"
        show "p \<le> Suc (iter + k)"
        proof (cases k)
          case 0
          with h op True show ?thesis by simp
        next
          case (Suc k')
          with h have "Suc iter + k' < 20 \<and> \<not> snd (onePass fadd mode l (afterPasses fadd mode l k' ns'))"
            by (simp add: afterPasses_Suc ns')
          with IH have "p \<le> Suc (Suc iter + k')" by blast
          then show ?thesis using Suc by simp
        qed
      qed
      have d: "p < 20 \<longrightarrow> \<not> snd (onePass fadd mode l (afterPasses fadd mode l (p - Suc iter) ns))"
      proof
        assume p20: "p < 20"
        have "Suc iter < p"
        proof -
          have "Suc iter < 20" using a p20 by simp
          then show ?thesis using IH by simp
        qed
        then have "p - Suc iter = Suc (p - Suc (Suc iter))" by simp
        then show "\<not> snd (onePass fadd mode l (afterPasses fadd mode l (p - Suc iter) ns))"
          using IH p20 by (simp add: afterPasses_Suc ns')
      qed
      show ?thesis unfolding pl p_def[symmetric] using a b c d by simp
    qed
  qed
qed

text \<open>
  C3. For every node list, layout mode and optional locked id, and whatever the sums of
  the arithmetic are, \<open>resolveCollisions\<close>
  terminates (the loop is a total function, its measure is \<open>20 - iter\<close>) after at least
  one and at most 20 passes; its result is the node list after exactly that many passes;
  it has stopped by the first pass that displaces no node; and when it runs fewer than 20
  passes, its last pass displaced no node.
\<close>

theorem resolveCollisions_pass_bound:
  "1 \<le> passesRun fadd ns mode l \<and> passesRun fadd ns mode l \<le> 20
   \<and> resolveCollisions fadd ns mode l = afterPasses fadd mode l (passesRun fadd ns mode l) ns
   \<and> (\<forall>k<20. \<not> snd (onePass fadd mode l (afterPasses fadd mode l k ns))
         \<longrightarrow> passesRun fadd ns mode l \<le> Suc k)
   \<and> (passesRun fadd ns mode l < 20 \<longrightarrow>
         \<not> snd (onePass fadd mode l (afterPasses fadd mode l (passesRun fadd ns mode l - 1) ns)))"
  using passLoop_spec[of 0 fadd mode l ns]
  unfolding passesRun_def resolveCollisions_def
  by (simp add: Suc_le_eq)

subsection \<open>Two nodes on the same spot\<close>

lemma onePass_twoStacked:
  "onePass (+) mindmap None twoStacked = ([nodeAt ''a'' 0 0, nodeAt ''b'' 0 160], True)"
  by (simp add: twoStacked_def onePass_def pairStep_def isLocked_def overlaps_def rect_def nodeAt_def
      APPROX_NODE_W_def APPROX_NODE_H_def COLLISION_PAD_def Let_def)

lemma onePass_twoApart:
  "onePass (+) mindmap l [nodeAt i 0 0, nodeAt j 0 160] = ([nodeAt i 0 0, nodeAt j 0 160], False)"
  by (simp add: onePass_def pairStep_def overlaps_def rect_def nodeAt_def
      APPROX_NODE_W_def APPROX_NODE_H_def COLLISION_PAD_def Let_def)

text \<open>
  The bound at two nodes on the same spot, at integer coordinates, where the sums of
  double arithmetic are the exact sums: the first pass pushes the second node down,
  the second pass moves nothing, and the loop stops there.
\<close>

theorem resolveCollisions_pass_bound_witness:
  "\<not> snd (onePass (+) mindmap None (afterPasses (+) mindmap None 1 twoStacked))
   \<and> passesRun (+) twoStacked mindmap None \<le> 2
   \<and> resolveCollisions (+) twoStacked mindmap None
       = afterPasses (+) mindmap None (passesRun (+) twoStacked mindmap None) twoStacked"
proof -
  have a1: "afterPasses (+) mindmap None 1 twoStacked = [nodeAt ''a'' 0 0, nodeAt ''b'' 0 160]"
    by (simp add: afterPasses_def onePass_twoStacked)
  have h: "\<not> snd (onePass (+) mindmap None (afterPasses (+) mindmap None 1 twoStacked))"
    unfolding a1 onePass_twoApart by simp
  note t = resolveCollisions_pass_bound [of "(+)" twoStacked mindmap None]
  from t have "\<forall>k<20. \<not> snd (onePass (+) mindmap None (afterPasses (+) mindmap None k twoStacked))
         \<longrightarrow> passesRun (+) twoStacked mindmap None \<le> Suc k"
    by simp
  then have "passesRun (+) twoStacked mindmap None \<le> Suc 1"
    using h by (metis one_less_numeral_iff semiring_norm(76))
  then have b: "passesRun (+) twoStacked mindmap None \<le> 2" by simp
  from t have c: "resolveCollisions (+) twoStacked mindmap None
       = afterPasses (+) mindmap None (passesRun (+) twoStacked mindmap None) twoStacked"
    by simp
  from h b c show ?thesis by (intro conjI)
qed

subsection \<open>What a run leaves unchanged\<close>

lemma framed_refl: "framed l ns ns"
  by (simp add: framed_def)

lemma isLocked_strip:
  "stripPosition m = stripPosition n \<Longrightarrow> isLocked l m = isLocked l n"
proof -
  assume "stripPosition m = stripPosition n"
  then have "nid (stripPosition m) = nid (stripPosition n)" by simp
  then have "nid m = nid n" by (simp add: stripPosition_def)
  then show ?thesis by (cases l) (simp_all add: isLocked_def)
qed

lemma framed_trans: "framed l ks ms \<Longrightarrow> framed l ms ns \<Longrightarrow> framed l ks ns"
  unfolding framed_def using isLocked_strip by (metis (no_types, lifting))

lemma pairStep_framed: "framed l (fst (pairStep fadd mode l i j (ns, mv))) ns"
proof (cases "j < length ns")
  case False
  then have "length ns \<le> j" by simp
  then have "fst (pairStep fadd mode l i j (ns, mv)) = ns"
    by (simp add: pairStep_def Let_def list_update_beyond)
  then show ?thesis by (simp add: framed_refl)
next
  case True
  then show ?thesis
    by (cases mode) (auto simp: pairStep_def Let_def framed_def nth_list_update stripPosition_def)
qed

lemma fold_framed:
  assumes "\<And>a st. framed l (fst (f a st)) (fst st)"
  shows "framed l (fst (fold f as st)) (fst st)"
proof (induction as arbitrary: st)
  case Nil
  show ?case by (simp add: framed_refl)
next
  case (Cons a as)
  have "framed l (fst (fold f as (f a st))) (fst (f a st))" by (rule Cons.IH)
  then show ?case using assms[of a st] by (auto intro: framed_trans)
qed

lemma onePass_framed: "framed l (fst (onePass fadd mode l ns)) ns"
proof -
  have inner: "\<And>i js st. framed l (fst (fold (pairStep fadd mode l i) js st)) (fst st)"
  proof -
    fix i js and st :: "FlowNode list \<times> bool"
    show "framed l (fst (fold (pairStep fadd mode l i) js st)) (fst st)"
      by (rule fold_framed) (metis pairStep_framed prod.collapse)
  qed
  have "framed l (fst (fold (\<lambda>i. fold (pairStep fadd mode l i) [0..<length ns]) [0..<length ns] (ns, False)))
          (fst (ns, False))"
    by (rule fold_framed) (rule inner)
  then show ?thesis by (simp add: onePass_def)
qed

lemma passLoop_framed: "framed l (fst (passLoop fadd mode l iter ns)) ns"
proof (induction fadd mode l iter ns rule: passLoop.induct)
  case (1 fadd mode l iter ns)
  show ?case
  proof (cases "iter < 20")
    case False
    then have "passLoop fadd mode l iter ns = (ns, iter)" by (subst passLoop.simps) simp
    then show ?thesis by (simp add: framed_refl)
  next
    case lt: True
    obtain ns' moved where op: "onePass fadd mode l ns = (ns', moved)" by (cases "onePass fadd mode l ns")
    have f1: "framed l ns' ns" using onePass_framed[of l fadd mode ns] op by simp
    show ?thesis
    proof (cases moved)
      case False
      then have "passLoop fadd mode l iter ns = (ns', Suc iter)"
        using lt op by (subst passLoop.simps) simp
      then show ?thesis using f1 by simp
    next
      case True
      then have pl: "passLoop fadd mode l iter ns = passLoop fadd mode l (Suc iter) ns'"
        using lt op by (subst passLoop.simps) simp
      have "framed l (fst (passLoop fadd mode l (Suc iter) ns')) ns'"
        using "1.IH"[OF lt op[symmetric]] True by simp
      then show ?thesis unfolding pl using f1 by (rule framed_trans)
    qed
  qed
qed

lemma onePass_lockedSecond:
  "onePass (+) mindmap (Some ''b'') twoStacked = ([nodeAt ''a'' 0 160, nodeAt ''b'' 0 0], True)"
  by (simp add: twoStacked_def onePass_def pairStep_def isLocked_def overlaps_def rect_def nodeAt_def
      APPROX_NODE_W_def APPROX_NODE_H_def COLLISION_PAD_def Let_def)

lemma onePass_firstBelow:
  "onePass (+) mindmap l [nodeAt i 0 160, nodeAt j 0 0] = ([nodeAt i 0 160, nodeAt j 0 0], False)"
  by (simp add: onePass_def pairStep_def overlaps_def rect_def nodeAt_def
      APPROX_NODE_W_def APPROX_NODE_H_def COLLISION_PAD_def Let_def)

text \<open>
  C10. \<open>resolveCollisions\<close> returns exactly the nodes of its input in the same order;
  every field other than the position is unchanged for every node; and the node whose id
  equals the locked id keeps its input position. A locked id, when one is given, is the
  fresh \<^verbatim>\<open>uid()\<close> of the node just added, at every call of the function, and a \<^verbatim>\<open>uid()\<close> is
  never the empty string: it ends in the base-36 digits of the clock. The result does not
  depend on the arithmetic.
\<close>

theorem resolveCollisions_frame:
  "length (resolveCollisions fadd ns mode l) = length ns
   \<and> map stripPosition (resolveCollisions fadd ns mode l) = map stripPosition ns
   \<and> (\<forall>i<length ns. l = Some (nid (ns ! i)) \<and> nid (ns ! i) \<noteq> []
         \<longrightarrow> position (resolveCollisions fadd ns mode l ! i) = position (ns ! i))"
proof -
  have f: "framed l (resolveCollisions fadd ns mode l) ns"
    using passLoop_framed[of l fadd mode 0 ns]
    by (simp add: resolveCollisions_def)
  then have len: "length (resolveCollisions fadd ns mode l) = length ns"
    by (simp add: framed_def)
  have "map stripPosition (resolveCollisions fadd ns mode l) = map stripPosition ns"
    using f len by (auto simp: framed_def list_eq_iff_nth_eq)
  moreover have "\<forall>i<length ns. l = Some (nid (ns ! i)) \<and> nid (ns ! i) \<noteq> []
         \<longrightarrow> position (resolveCollisions fadd ns mode l ! i) = position (ns ! i)"
    using f by (auto simp: framed_def isLocked_def)
  ultimately show ?thesis using len by simp
qed

text \<open>
  The frame at two nodes on the same spot (integer coordinates, where the sums of double
  arithmetic are exact) with the second one locked: the first node is
  the one that gives way.
\<close>

theorem resolveCollisions_frame_witness:
  "1 < length twoStacked
   \<and> Some ''b'' = Some (nid (twoStacked ! 1)) \<and> nid (twoStacked ! 1) \<noteq> []
   \<and> position (resolveCollisions (+) twoStacked mindmap (Some ''b'') ! 1) = \<lparr>x_of = 0, y_of = 0\<rparr>
   \<and> position (resolveCollisions (+) twoStacked mindmap (Some ''b'') ! 0) = \<lparr>x_of = 0, y_of = 160\<rparr>"
proof -
  have h1: "1 < length twoStacked" by (simp add: twoStacked_def)
  have h2: "Some ''b'' = Some (nid (twoStacked ! 1))" by (simp add: twoStacked_def nodeAt_def)
  have h3: "nid (twoStacked ! 1) \<noteq> []" by (simp add: twoStacked_def nodeAt_def)
  have p: "position (twoStacked ! 1) = \<lparr>x_of = 0, y_of = 0\<rparr>"
    by (simp add: twoStacked_def nodeAt_def)
  have "position (resolveCollisions (+) twoStacked mindmap (Some ''b'') ! 1) = position (twoStacked ! 1)"
    using resolveCollisions_frame [of "(+)" twoStacked mindmap "Some ''b''"] h1 h2 h3 by blast
  then have c1: "position (resolveCollisions (+) twoStacked mindmap (Some ''b'') ! 1) = \<lparr>x_of = 0, y_of = 0\<rparr>"
    by (simp only: p)
  have "passLoop (+) mindmap (Some ''b'') 0 twoStacked = ([nodeAt ''a'' 0 160, nodeAt ''b'' 0 0], 2)"
    by (simp add: passLoop.simps[of _ _ _ 0] passLoop.simps[of _ _ _ "Suc 0"]
        onePass_lockedSecond onePass_firstBelow)
  then have c2: "position (resolveCollisions (+) twoStacked mindmap (Some ''b'') ! 0) = \<lparr>x_of = 0, y_of = 160\<rparr>"
    by (simp add: resolveCollisions_def nodeAt_def)
  from h1 h2 h3 c1 c2 show ?thesis by (intro conjI)
qed

section \<open>Deleting a node\<close>

lemma filter_distinct_remove1:
  "distinct (map nid ns) \<Longrightarrow> find (\<lambda>n. nid n = k) ns = Some node
   \<Longrightarrow> filter (\<lambda>n. nid n \<noteq> k) ns = remove1 node ns"
proof (induction ns)
  case Nil
  then show ?case by simp
next
  case (Cons a ns)
  show ?case
  proof (cases "nid a = k")
    case True
    then have "node = a" using Cons.prems by simp
    moreover have "\<forall>n\<in>set ns. nid n \<noteq> k" using Cons.prems True by (auto simp: image_iff)
    then have "filter (\<lambda>n. nid n \<noteq> k) ns = ns" by (simp add: filter_id_conv)
    ultimately show ?thesis using True by simp
  next
    case False
    then have "find (\<lambda>n. nid n = k) ns = Some node" using Cons.prems by simp
    moreover have "nid node = k" using calculation by (auto simp: find_Some_iff)
    ultimately show ?thesis using False Cons by auto
  qed
qed

lemma find_Some_length:
  "find P ns = Some node \<Longrightarrow> node \<in> set ns \<and> P node"
  by (auto simp: find_Some_iff)

text \<open>
  C8. Deleting an existing node id from the canvas (the context-menu action) keeps, in
  order and unchanged, every node with another id and every edge that neither starts nor
  ends at the id, and removes the rest; the files of the store are untouched, so no
  document is deleted. With node ids distinct, as the data model has them, exactly one
  node goes: the one with that id. The Delete / Backspace key does the same to the
  selected node.
\<close>

theorem deleteNode_exact:
  assumes ex: "find (\<lambda>n. nid n = nodeId) (c_nodes c) = Some node"
  shows "c_nodes (handleNodeAction newId t1 t2 nodeId Delete c)
           = filter (\<lambda>n. nid n \<noteq> nodeId) (c_nodes c)
       \<and> c_edges (handleNodeAction newId t1 t2 nodeId Delete c)
           = filter (\<lambda>ed. source ed \<noteq> nodeId \<and> target ed \<noteq> nodeId) (c_edges c)
       \<and> files (store (handleNodeAction newId t1 t2 nodeId Delete c)) = files (store c)
       \<and> activeFileId (store (handleNodeAction newId t1 t2 nodeId Delete c)) = activeFileId (store c)
       \<and> (distinct (map nid (c_nodes c)) \<longrightarrow>
            c_nodes (handleNodeAction newId t1 t2 nodeId Delete c) = remove1 node (c_nodes c)
            \<and> Suc (length (c_nodes (handleNodeAction newId t1 t2 nodeId Delete c))) = length (c_nodes c))
       \<and> (find selected (c_nodes c) = Some node \<longrightarrow>
            onKeyDownDelete False c = handleNodeAction newId t1 t2 nodeId Delete c)"
proof -
  have nd: "nid node = nodeId" and mem: "node \<in> set (c_nodes c)"
    using find_Some_length[OF ex] by auto
  have a: "c_nodes (handleNodeAction newId t1 t2 nodeId Delete c)
           = filter (\<lambda>n. nid n \<noteq> nodeId) (c_nodes c)"
    using ex by (simp add: handleNodeAction_def snapshot_def Let_def)
  have b: "c_edges (handleNodeAction newId t1 t2 nodeId Delete c)
           = filter (\<lambda>ed. source ed \<noteq> nodeId \<and> target ed \<noteq> nodeId) (c_edges c)"
    using ex by (simp add: handleNodeAction_def snapshot_def Let_def)
  have s: "files (store (handleNodeAction newId t1 t2 nodeId Delete c)) = files (store c)"
    "activeFileId (store (handleNodeAction newId t1 t2 nodeId Delete c)) = activeFileId (store c)"
    using ex by (simp_all add: handleNodeAction_def snapshot_def Let_def pushUndo_def)
  have d: "distinct (map nid (c_nodes c)) \<longrightarrow>
            c_nodes (handleNodeAction newId t1 t2 nodeId Delete c) = remove1 node (c_nodes c)
            \<and> Suc (length (c_nodes (handleNodeAction newId t1 t2 nodeId Delete c))) = length (c_nodes c)"
  proof
    assume dist: "distinct (map nid (c_nodes c))"
    have r: "c_nodes (handleNodeAction newId t1 t2 nodeId Delete c) = remove1 node (c_nodes c)"
      using a filter_distinct_remove1[OF dist ex] by simp
    have "length (remove1 node (c_nodes c)) = length (c_nodes c) - 1"
      using mem by (simp add: length_remove1)
    moreover have "length (c_nodes c) > 0" using mem by (cases "c_nodes c") auto
    ultimately show "c_nodes (handleNodeAction newId t1 t2 nodeId Delete c) = remove1 node (c_nodes c)
            \<and> Suc (length (c_nodes (handleNodeAction newId t1 t2 nodeId Delete c))) = length (c_nodes c)"
      using r by simp
  qed
  have k: "find selected (c_nodes c) = Some node \<longrightarrow>
            onKeyDownDelete False c = handleNodeAction newId t1 t2 nodeId Delete c"
    using ex nd by (simp add: onKeyDownDelete_def handleNodeAction_def Let_def)
  from a b s(1) s(2) d k show ?thesis by (intro conjI)
qed

text \<open>
  The scenario of a root with three children: deleting the second child leaves the root,
  two children and the two edges to them.
\<close>

theorem deleteNode_exact_witness:
  "find (\<lambda>n. nid n = ''c2'') (c_nodes threeChildren) = Some ((nodeAt ''c2'' 190 (- 110))\<lparr>selected := True\<rparr>)
   \<and> distinct (map nid (c_nodes threeChildren))
   \<and> find selected (c_nodes threeChildren) = Some ((nodeAt ''c2'' 190 (- 110))\<lparr>selected := True\<rparr>)
   \<and> c_nodes (handleNodeAction ''u'' 9 9 ''c2'' Delete threeChildren)
       = [nodeAt ''root'' 0 0, nodeAt ''c1'' 0 (- 220), nodeAt ''c3'' 190 110]
   \<and> c_edges (handleNodeAction ''u'' 9 9 ''c2'' Delete threeChildren)
       = [edgeFromTo ''root'' ''c1'', edgeFromTo ''root'' ''c3'']
   \<and> files (store (handleNodeAction ''u'' 9 9 ''c2'' Delete threeChildren)) = files oneFile
   \<and> onKeyDownDelete False threeChildren = handleNodeAction ''u'' 9 9 ''c2'' Delete threeChildren"
proof -
  have h1: "find (\<lambda>n. nid n = ''c2'') (c_nodes threeChildren)
              = Some ((nodeAt ''c2'' 190 (- 110))\<lparr>selected := True\<rparr>)"
    by (simp add: threeChildren_def nodeAt_def)
  have h2: "distinct (map nid (c_nodes threeChildren))"
    by (simp add: threeChildren_def nodeAt_def)
  have h3: "find selected (c_nodes threeChildren)
              = Some ((nodeAt ''c2'' 190 (- 110))\<lparr>selected := True\<rparr>)"
    by (simp add: threeChildren_def nodeAt_def)
  note t = deleteNode_exact [OF h1, of "''u''" 9 9]
  have f1: "filter (\<lambda>n. nid n \<noteq> ''c2'') (c_nodes threeChildren)
              = [nodeAt ''root'' 0 0, nodeAt ''c1'' 0 (- 220), nodeAt ''c3'' 190 110]"
    by (simp add: threeChildren_def nodeAt_def)
  have f2: "filter (\<lambda>ed. source ed \<noteq> ''c2'' \<and> target ed \<noteq> ''c2'') (c_edges threeChildren)
              = [edgeFromTo ''root'' ''c1'', edgeFromTo ''root'' ''c3'']"
    by (simp add: threeChildren_def edgeFromTo_def)
  have st: "store threeChildren = oneFile" by (simp add: threeChildren_def)
  from t have c1: "c_nodes (handleNodeAction ''u'' 9 9 ''c2'' Delete threeChildren)
       = [nodeAt ''root'' 0 0, nodeAt ''c1'' 0 (- 220), nodeAt ''c3'' 190 110]"
    by (simp only: f1)
  from t have c2: "c_edges (handleNodeAction ''u'' 9 9 ''c2'' Delete threeChildren)
       = [edgeFromTo ''root'' ''c1'', edgeFromTo ''root'' ''c3'']"
    by (simp only: f2)
  from t have c3: "files (store (handleNodeAction ''u'' 9 9 ''c2'' Delete threeChildren)) = files oneFile"
    by (simp only: st)
  from t h3 have c4: "onKeyDownDelete False threeChildren = handleNodeAction ''u'' 9 9 ''c2'' Delete threeChildren"
    by blast
  from h1 h2 h3 c1 c2 c3 c4 show ?thesis by (intro conjI)
qed

section \<open>Portals\<close>

lemma createFile_portalCount:
  "portalCount n (fst (createFile newId t1 t2 nm pf (Some n) s)) = Suc (portalCount n s)"
  by (simp add: createFile_def portalCount_def defaultFile_def Let_def)

text \<open>
  C5. Portal uniqueness: at most one document has a given node id as its
  \<open>parentNodeId\<close>, and toggling a portal off and on again preserves this. The canvas
  does otherwise: toggling off leaves the sub-document in place, and toggling on creates
  a new one without looking for an existing one, so after on, off, on two documents
  have \<open>parentNodeId = root\<close>.
\<close>

theorem togglePortal_twice_two_documents:
  "portalCount ''root'' (store rootCanvas) = 0
   \<and> portalCount ''root'' (store (handleNodeAction ''b'' 2 2 ''root'' TogglePortal rootCanvas)) = 1
   \<and> map (\<lambda>n. isPortal (ndata n))
        (c_nodes (handleNodeAction ''x'' 3 3 ''root'' TogglePortal
          (handleNodeAction ''b'' 2 2 ''root'' TogglePortal rootCanvas))) = [False]
   \<and> map (\<lambda>f. (fid f, parentNodeId f))
        (files (store (handleNodeAction ''c'' 4 4 ''root'' TogglePortal
          (handleNodeAction ''x'' 3 3 ''root'' TogglePortal
            (handleNodeAction ''b'' 2 2 ''root'' TogglePortal rootCanvas)))))
       = [(''a'', None), (''b'', Some ''root''), (''c'', Some ''root'')]
   \<and> portalCount ''root''
        (store (handleNodeAction ''c'' 4 4 ''root'' TogglePortal
          (handleNodeAction ''x'' 3 3 ''root'' TogglePortal
            (handleNodeAction ''b'' 2 2 ''root'' TogglePortal rootCanvas)))) = 2"
  by (simp add: rootCanvas_def oneFile_def initialState_def handleNodeAction_def snapshot_def
      pushUndo_def createFile_def defaultFile_def portalCount_def Let_def MAX_UNDO_def)

section \<open>Import\<close>

text \<open>
  C9, as stated: the import succeeds on every payload that parses as JSON. The payload
  \<open>null\<close> parses, but reading its \<open>nodes\<close> property throws inside the \<open>try\<close>, and the
  import is rejected.
\<close>

theorem importJSON_null_counterexample:
  "importJSON (Some JNull) = Inl (Error ''Invalid JSON'')"
  by (simp add: importJSON_def importBody_def)

lemma getProp_not_null:
  "j \<noteq> JNull \<Longrightarrow> getProp j k = Inr (case j of JObj kvs \<Rightarrow> map_of kvs k | _ \<Rightarrow> None)"
  by (cases j) simp_all

text \<open>
  C9, amended. The import succeeds on every payload that parses as JSON to a value other
  than \<open>null\<close>, with the empty list in place of a missing (or null) \<open>nodes\<close> key and
  \<open>edges\<close> key. On a payload that is not valid JSON, and on the payload \<open>null\<close>, it rejects
  with the error \<open>Invalid JSON\<close>; the toolbar then reports the failure and leaves the store
  as it was.
\<close>

theorem importJSON_total_on_non_null:
  "(j \<noteq> JNull \<longrightarrow>
      importJSON (Some j) =
        Inr (orEmpty (case j of JObj kvs \<Rightarrow> map_of kvs ''nodes'' | _ \<Rightarrow> None),
             orEmpty (case j of JObj kvs \<Rightarrow> map_of kvs ''edges'' | _ \<Rightarrow> None)))
   \<and> (map_of kvs ''nodes'' = None \<longrightarrow> (\<exists>es. importJSON (Some (JObj kvs)) = Inr (JArr [], es)))
   \<and> (map_of kvs ''edges'' = None \<longrightarrow> (\<exists>ns. importJSON (Some (JObj kvs)) = Inr (ns, JArr [])))
   \<and> importJSON None = Inl (Error ''Invalid JSON'')
   \<and> importJSON (Some JNull) = Inl (Error ''Invalid JSON'')
   \<and> handleImport (Some None) t1 t2 s = (s, Some ''Failed to import: invalid JSON file'')
   \<and> handleImport (Some (Some JNull)) t1 t2 s = (s, Some ''Failed to import: invalid JSON file'')"
proof -
  have a: "j \<noteq> JNull \<longrightarrow>
      importJSON (Some j) =
        Inr (orEmpty (case j of JObj kvs \<Rightarrow> map_of kvs ''nodes'' | _ \<Rightarrow> None),
             orEmpty (case j of JObj kvs \<Rightarrow> map_of kvs ''edges'' | _ \<Rightarrow> None))"
    by (simp add: importJSON_def importBody_def getProp_not_null)
  have b: "map_of kvs ''nodes'' = None \<longrightarrow> (\<exists>es. importJSON (Some (JObj kvs)) = Inr (JArr [], es))"
    by (simp add: importJSON_def importBody_def)
  have c: "map_of kvs ''edges'' = None \<longrightarrow> (\<exists>ns. importJSON (Some (JObj kvs)) = Inr (ns, JArr []))"
    by (simp add: importJSON_def importBody_def)
  have d: "importJSON None = Inl (Error ''Invalid JSON'')"
    "importJSON (Some JNull) = Inl (Error ''Invalid JSON'')"
    by (simp_all add: importJSON_def importBody_def)
  have e: "handleImport (Some None) t1 t2 s = (s, Some ''Failed to import: invalid JSON file'')"
    "handleImport (Some (Some JNull)) t1 t2 s = (s, Some ''Failed to import: invalid JSON file'')"
    by (simp_all add: handleImport_def d)
  from a b c d e show ?thesis by (intro conjI)
qed

text \<open>The empty object \<open>{}\<close> has neither key and imports as an empty document.\<close>

theorem importJSON_total_on_non_null_witness:
  "JObj [] \<noteq> JNull \<and> map_of ([] :: (string \<times> Json) list) ''nodes'' = None
   \<and> map_of ([] :: (string \<times> Json) list) ''edges'' = None
   \<and> importJSON (Some (JObj [])) = Inr (JArr [], JArr [])"
proof -
  have h1: "JObj [] \<noteq> JNull" by simp
  have h2: "map_of ([] :: (string \<times> Json) list) ''nodes'' = None" by simp
  have h3: "map_of ([] :: (string \<times> Json) list) ''edges'' = None" by simp
  from importJSON_total_on_non_null [of "JObj []" "[]"] h1
  have "importJSON (Some (JObj [])) =
        Inr (orEmpty (case JObj [] of JObj kvs \<Rightarrow> map_of kvs ''nodes'' | _ \<Rightarrow> None),
             orEmpty (case JObj [] of JObj kvs \<Rightarrow> map_of kvs ''edges'' | _ \<Rightarrow> None))"
    by blast
  then have c: "importJSON (Some (JObj [])) = Inr (JArr [], JArr [])" by simp
  from h1 h2 h3 c show ?thesis by (intro conjI)
qed

end
